theory Spec2Isabelle
  imports Main "HOL-Library.Word" "HOL-Library.Finite_Map"
begin

section \<open>Package metrics: the snapshot collector\<close>

text \<open>
  Go's \<^verbatim>\<open>uint64\<close> is a 64-bit word. A \<^verbatim>\<open>float64\<close> is only stored and copied by the
  collector, never computed with, so it is kept as its 64-bit pattern (the zero value
  \<^verbatim>\<open>0.0\<close> is the all-zero pattern). A \<^verbatim>\<open>time.Time\<close> is an instant counted from the zero
  \<^verbatim>\<open>Time{}\<close>; Go's \<^verbatim>\<open>int\<close> is an integer (no arithmetic of the collector can overflow it).
  A nil slice and an empty slice are both the empty list. An \<^verbatim>\<open>error\<close> returned by a
  library is its message.
\<close>

type_synonym uint64 = "64 word"
type_synonym float64 = "64 word"
type_synonym Time = nat
type_synonym err = string

record SystemInfo =
  Hostname :: string
  OS :: string
  Platform :: string
  PlatformVersion :: string
  KernelVersion :: string
  KernelArch :: string
  Uptime :: uint64
  BootTime :: uint64
  NumCPU :: int

record CPUInfo =
  Cores :: int
  ModelName :: string
  Mhz :: float64
  UsagePercent :: "float64 list"
  TotalPercent :: float64

record MemoryInfo =
  mem_Total :: uint64
  mem_Used :: uint64
  mem_Free :: uint64
  mem_Available :: uint64
  mem_UsedPercent :: float64
  SwapTotal :: uint64
  SwapUsed :: uint64
  SwapFree :: uint64

record DiskInfo =
  Device :: string
  Mountpoint :: string
  Fstype :: string
  disk_Total :: uint64
  disk_Used :: uint64
  disk_Free :: uint64
  disk_UsedPercent :: float64

record NetworkInfo =
  Name :: string
  BytesSent :: uint64
  BytesRecv :: uint64
  PacketsSent :: uint64
  PacketsRecv :: uint64
  Errin :: uint64
  Errout :: uint64

record AllMetrics =
  Timestamp :: Time
  System :: SystemInfo
  CPU :: CPUInfo
  Memory :: MemoryInfo
  Disks :: "DiskInfo list"
  Network :: "NetworkInfo list"

text \<open>The zero values of the structs (what \<^verbatim>\<open>SystemInfo{}\<close>, ..., \<^verbatim>\<open>AllMetrics{}\<close> denote).\<close>

definition zero_SystemInfo :: SystemInfo where
  "zero_SystemInfo = \<lparr>Hostname = [], OS = [], Platform = [], PlatformVersion = [],
     KernelVersion = [], KernelArch = [], Uptime = 0, BootTime = 0, NumCPU = 0\<rparr>"

definition zero_CPUInfo :: CPUInfo where
  "zero_CPUInfo = \<lparr>Cores = 0, ModelName = [], Mhz = 0, UsagePercent = [], TotalPercent = 0\<rparr>"

definition zero_MemoryInfo :: MemoryInfo where
  "zero_MemoryInfo = \<lparr>mem_Total = 0, mem_Used = 0, mem_Free = 0, mem_Available = 0,
     mem_UsedPercent = 0, SwapTotal = 0, SwapUsed = 0, SwapFree = 0\<rparr>"

definition zero_AllMetrics :: AllMetrics where
  "zero_AllMetrics = \<lparr>Timestamp = 0, System = zero_SystemInfo, CPU = zero_CPUInfo,
     Memory = zero_MemoryInfo, Disks = [], Network = []\<rparr>"

subsection \<open>What the operating system answers during one tick\<close>

text \<open>
  The collector reads the clock, the Go runtime and the gopsutil library. Those answers are
  the input of a tick: each library call either fails with an error or returns its
  statistics (only the fields the collector reads are kept).
\<close>

record host_InfoStat =
  hi_Hostname :: string
  hi_OS :: string
  hi_Platform :: string
  hi_PlatformVersion :: string
  hi_KernelVersion :: string
  hi_KernelArch :: string
  hi_Uptime :: uint64
  hi_BootTime :: uint64

record cpu_InfoStat =
  ci_Cores :: int
  ci_ModelName :: string
  ci_Mhz :: float64

record mem_VirtualMemoryStat =
  vm_Total :: uint64
  vm_Used :: uint64
  vm_Free :: uint64
  vm_Available :: uint64
  vm_UsedPercent :: float64

record mem_SwapMemoryStat =
  sw_Total :: uint64
  sw_Used :: uint64
  sw_Free :: uint64

record disk_PartitionStat =
  pt_Device :: string
  pt_Mountpoint :: string
  pt_Fstype :: string

record disk_UsageStat =
  us_Total :: uint64
  us_Used :: uint64
  us_Free :: uint64
  us_UsedPercent :: float64

record net_IOCountersStat =
  io_Name :: string
  io_BytesSent :: uint64
  io_BytesRecv :: uint64
  io_PacketsSent :: uint64
  io_PacketsRecv :: uint64
  io_Errin :: uint64
  io_Errout :: uint64

record probes =
  time_Now :: Time
  runtime_NumCPU :: int
  host_Info :: "err + host_InfoStat"
  cpu_Info :: "err + cpu_InfoStat list"
  cpu_Percent_each :: "err + float64 list"
  cpu_Percent_all :: "err + float64 list"
  mem_VirtualMemory :: "err + mem_VirtualMemoryStat"
  mem_SwapMemory :: "err + mem_SwapMemoryStat"
  disk_Partitions :: "err + disk_PartitionStat list"
  disk_Usage :: "string \<Rightarrow> err + disk_UsageStat"
  net_IOCounters :: "err + net_IOCountersStat list"

subsection \<open>The five sub-collections\<close>

text \<open>
  Each returns the pair \<^verbatim>\<open>(info, err)\<close> of the source: \<open>Inl\<close> is a non-nil error (the
  info returned beside it is dropped by every caller), \<open>Inr\<close> is \<^verbatim>\<open>(info, nil)\<close>.
\<close>

definition GetSystemInfo :: "probes \<Rightarrow> err + SystemInfo" where
  "GetSystemInfo p =
     (case host_Info p of
        Inl e \<Rightarrow> Inl e
      | Inr hostInfo \<Rightarrow>
          Inr \<lparr>Hostname = hi_Hostname hostInfo, OS = hi_OS hostInfo,
               Platform = hi_Platform hostInfo, PlatformVersion = hi_PlatformVersion hostInfo,
               KernelVersion = hi_KernelVersion hostInfo, KernelArch = hi_KernelArch hostInfo,
               Uptime = hi_Uptime hostInfo, BootTime = hi_BootTime hostInfo,
               NumCPU = runtime_NumCPU p\<rparr>)"

definition GetCPUInfo :: "probes \<Rightarrow> err + CPUInfo" where
  "GetCPUInfo p =
     (let info = zero_CPUInfo;
          info = (case cpu_Info p of
                    Inr (c0 # _) \<Rightarrow>
                      info\<lparr>Cores := ci_Cores c0, ModelName := ci_ModelName c0, Mhz := ci_Mhz c0\<rparr>
                  | _ \<Rightarrow> info);
          info = (case cpu_Percent_each p of
                    Inr perCPU \<Rightarrow> info\<lparr>UsagePercent := perCPU\<rparr>
                  | Inl _ \<Rightarrow> info);
          info = (case cpu_Percent_all p of
                    Inr (t0 # _) \<Rightarrow> info\<lparr>TotalPercent := t0\<rparr>
                  | _ \<Rightarrow> info)
      in Inr info)"

definition GetMemoryInfo :: "probes \<Rightarrow> err + MemoryInfo" where
  "GetMemoryInfo p =
     (case mem_VirtualMemory p of
        Inl e \<Rightarrow> Inl e
      | Inr vmem \<Rightarrow>
          (let info = zero_MemoryInfo\<lparr>mem_Total := vm_Total vmem, mem_Used := vm_Used vmem,
                        mem_Free := vm_Free vmem, mem_Available := vm_Available vmem,
                        mem_UsedPercent := vm_UsedPercent vmem\<rparr>;
               info = (case mem_SwapMemory p of
                         Inr swap \<Rightarrow> info\<lparr>SwapTotal := sw_Total swap, SwapUsed := sw_Used swap,
                                             SwapFree := sw_Free swap\<rparr>
                       | Inl _ \<Rightarrow> info)
           in Inr info))"

text \<open>The loop over the partitions: a partition whose usage cannot be read is skipped.\<close>

fun disk_loop :: "(string \<Rightarrow> err + disk_UsageStat) \<Rightarrow> disk_PartitionStat list \<Rightarrow> DiskInfo list" where
  "disk_loop usage_of [] = []"
| "disk_loop usage_of (p # ps) =
     (case usage_of (pt_Mountpoint p) of
        Inl _ \<Rightarrow> disk_loop usage_of ps
      | Inr usage \<Rightarrow>
          \<lparr>Device = pt_Device p, Mountpoint = pt_Mountpoint p, Fstype = pt_Fstype p,
           disk_Total = us_Total usage, disk_Used = us_Used usage, disk_Free = us_Free usage,
           disk_UsedPercent = us_UsedPercent usage\<rparr> # disk_loop usage_of ps)"

definition GetDiskInfo :: "probes \<Rightarrow> err + DiskInfo list" where
  "GetDiskInfo p =
     (case disk_Partitions p of
        Inl e \<Rightarrow> Inl e
      | Inr partitions \<Rightarrow> Inr (disk_loop (disk_Usage p) partitions))"

definition GetNetworkInfo :: "probes \<Rightarrow> err + NetworkInfo list" where
  "GetNetworkInfo p =
     (case net_IOCounters p of
        Inl e \<Rightarrow> Inl e
      | Inr counters \<Rightarrow>
          Inr (map (\<lambda>counter. \<lparr>Name = io_Name counter, BytesSent = io_BytesSent counter,
                                 BytesRecv = io_BytesRecv counter,
                                 PacketsSent = io_PacketsSent counter,
                                 PacketsRecv = io_PacketsRecv counter,
                                 Errin = io_Errin counter, Errout = io_Errout counter\<rparr>)
                 counters))"

subsection \<open>Package storage: the persisted entry\<close>

record CPUMetrics =
  cm_UsagePercent :: "float64 list"
  cm_TotalPercent :: float64

record MemMetrics =
  mm_Total :: uint64
  mm_Used :: uint64
  mm_Free :: uint64
  mm_UsedPercent :: float64
  mm_SwapTotal :: uint64
  mm_SwapUsed :: uint64
  mm_SwapFree :: uint64

record storage_DiskInfo =
  sd_Device :: string
  sd_Mountpoint :: string
  sd_Fstype :: string
  sd_Total :: uint64
  sd_Used :: uint64
  sd_Free :: uint64
  sd_UsedPercent :: float64

record NetInfo =
  ni_Name :: string
  ni_BytesSent :: uint64
  ni_BytesRecv :: uint64
  ni_PacketsSent :: uint64
  ni_PacketsRecv :: uint64

record MetricsEntry =
  me_Timestamp :: Time
  me_CPU :: CPUMetrics
  me_Memory :: MemMetrics
  me_Disk :: "storage_DiskInfo list"
  me_Network :: "NetInfo list"

subsection \<open>The collector\<close>

text \<open>
  \<open>storage\<close> is the pointer to the store (\<open>None\<close> is nil; the server continues without
  storage when the database cannot be opened). A subscriber is a buffered channel made by
  \<^verbatim>\<open>make(chan AllMetrics, 10)\<close>: the list keeps, for each channel, its identity and the
  messages waiting in its buffer. \<^verbatim>\<open>Unsubscribe\<close> is the only place that closes such a
  channel, after taking it out of the list under the same lock, so a channel in the list is
  open.
\<close>

record Collector =
  storage :: "nat option"
  interval :: nat
  history :: "AllMetrics list"
  histSize :: int
  subscribers :: "(nat \<times> AllMetrics list) list"

datatype panic = MakesliceCapOutOfRange | SendOnClosedChannel | CloseOfClosedChannel | NilDereference

text \<open>\<^verbatim>\<open>make([]AllMetrics, 0, historySize)\<close> panics at run time on a negative capacity.\<close>

definition NewCollector :: "nat option \<Rightarrow> nat \<Rightarrow> int \<Rightarrow> panic + Collector" where
  "NewCollector store ival historySize =
     (if historySize < 0 then Inl MakesliceCapOutOfRange
      else Inr \<lparr>storage = store, interval = ival, history = [], histSize = historySize,
                subscribers = []\<rparr>)"

definition subscriber_cap :: nat where
  "subscriber_cap = 10"

text \<open>
  \<^verbatim>\<open>select { case ch <- metrics: default: }\<close> on an open buffered channel: the value is put
  into the buffer when there is room, and skipped otherwise.
\<close>

definition notifySubscribers :: "AllMetrics \<Rightarrow> (nat \<times> AllMetrics list) list \<Rightarrow> (nat \<times> AllMetrics list) list" where
  "notifySubscribers metrics subs =
     map (\<lambda>(ch, buf). if length buf < subscriber_cap then (ch, buf @ [metrics]) else (ch, buf)) subs"

text \<open>Lines 125 to 152 of \<^verbatim>\<open>collect\<close>: the snapshot of one tick.\<close>

definition gather :: "probes \<Rightarrow> AllMetrics" where
  "gather p =
     (let metrics = zero_AllMetrics\<lparr>Timestamp := time_Now p\<rparr>;
          metrics = (case GetSystemInfo p of Inr info \<Rightarrow> metrics\<lparr>System := info\<rparr> | Inl _ \<Rightarrow> metrics);
          metrics = (case GetCPUInfo p of Inr cpu \<Rightarrow> metrics\<lparr>CPU := cpu\<rparr> | Inl _ \<Rightarrow> metrics);
          metrics = (case GetMemoryInfo p of Inr mem \<Rightarrow> metrics\<lparr>Memory := mem\<rparr> | Inl _ \<Rightarrow> metrics);
          metrics = (case GetDiskInfo p of Inr disks \<Rightarrow> metrics\<lparr>Disks := disks\<rparr> | Inl _ \<Rightarrow> metrics);
          metrics = (case GetNetworkInfo p of Inr net \<Rightarrow> metrics\<lparr>Network := net\<rparr> | Inl _ \<Rightarrow> metrics)
      in metrics)"

text \<open>Lines 164 to 199: the entry handed to the store.\<close>

definition entry_of :: "AllMetrics \<Rightarrow> MetricsEntry" where
  "entry_of metrics =
     \<lparr>me_Timestamp = Timestamp metrics,
      me_CPU = \<lparr>cm_UsagePercent = UsagePercent (CPU metrics),
                cm_TotalPercent = TotalPercent (CPU metrics)\<rparr>,
      me_Memory = \<lparr>mm_Total = mem_Total (Memory metrics), mm_Used = mem_Used (Memory metrics),
                   mm_Free = mem_Free (Memory metrics),
                   mm_UsedPercent = mem_UsedPercent (Memory metrics),
                   mm_SwapTotal = SwapTotal (Memory metrics),
                   mm_SwapUsed = SwapUsed (Memory metrics),
                   mm_SwapFree = SwapFree (Memory metrics)\<rparr>,
      me_Disk = map (\<lambda>d. \<lparr>sd_Device = Device d, sd_Mountpoint = Mountpoint d,
                           sd_Fstype = Fstype d, sd_Total = disk_Total d, sd_Used = disk_Used d,
                           sd_Free = disk_Free d, sd_UsedPercent = disk_UsedPercent d\<rparr>)
                  (Disks metrics),
      me_Network = map (\<lambda>n. \<lparr>ni_Name = Name n, ni_BytesSent = BytesSent n,
                              ni_BytesRecv = BytesRecv n, ni_PacketsSent = PacketsSent n,
                              ni_PacketsRecv = PacketsRecv n\<rparr>)
                     (Network metrics)\<rparr>"

text \<open>
  One tick. The result is the collector after the tick and the call made to the store, if
  any: \<open>Some (s, entry)\<close> is \<^verbatim>\<open>AddMetricsEntry(entry)\<close> on the store \<open>s\<close> (its error is
  dropped by the source). \<^verbatim>\<open>c.history[1:]\<close> is taken on a slice that has just been
  appended to, so it is never out of range.
\<close>

definition collect :: "Collector \<Rightarrow> probes \<Rightarrow> Collector \<times> (nat \<times> MetricsEntry) option" where
  "collect c p =
     (let metrics = gather p;
          h = history c @ [metrics];
          h = (if int (length h) > histSize c then drop 1 h else h);
          stored = (case storage c of
                      None \<Rightarrow> None
                    | Some s \<Rightarrow> Some (s, entry_of metrics))
      in (c\<lparr>history := h, subscribers := notifySubscribers metrics (subscribers c)\<rparr>, stored))"

text \<open>
  \<^verbatim>\<open>Start\<close>: one collection at once, then one for each tick of the ticker that is taken
  before the context is cancelled. The input is what the system answers at each of those
  collections; the loop ends when the cancellation is taken.
\<close>

fun ticks :: "Collector \<Rightarrow> probes list \<Rightarrow> Collector" where
  "ticks c [] = c"
| "ticks c (p # ps) = ticks (fst (collect c p)) ps"

definition Start :: "Collector \<Rightarrow> probes \<Rightarrow> probes list \<Rightarrow> Collector" where
  "Start c p0 ps = ticks (fst (collect c p0)) ps"

definition Subscribe :: "Collector \<Rightarrow> nat \<Rightarrow> Collector" where
  "Subscribe c ch = c\<lparr>subscribers := subscribers c @ [(ch, [])]\<rparr>"

definition GetLatest :: "Collector \<Rightarrow> AllMetrics" where
  "GetLatest c =
     (if length (history c) = 0 then zero_AllMetrics
      else history c ! (length (history c) - 1))"

definition GetHistory :: "Collector \<Rightarrow> AllMetrics list" where
  "GetHistory c = history c"

section \<open>Package websocket: the hub\<close>

text \<open>
  A \<^verbatim>\<open>[]byte\<close> message is a string of bytes. A buffered channel is its buffer, its capacity
  and whether it has been closed. Sending on a closed channel and closing a closed channel
  panic, also inside a \<^verbatim>\<open>select\<close>.
\<close>

type_synonym bytes = string

record 'a chan =
  ch_buf :: "'a list"
  ch_cap :: nat
  ch_closed :: bool

definition make_chan :: "nat \<Rightarrow> 'a chan" where
  "make_chan n = \<lparr>ch_buf = [], ch_cap = n, ch_closed = False\<rparr>"

text \<open>
  \<^verbatim>\<open>select { case ch <- v: ... default: ... }\<close>: the send is taken when the buffer has room
  (\<open>True\<close>), the default branch otherwise (\<open>False\<close>). Nothing waits.
\<close>

definition try_send :: "'a \<Rightarrow> 'a chan \<Rightarrow> panic + ('a chan \<times> bool)" where
  "try_send v ch =
     (if ch_closed ch then Inl SendOnClosedChannel
      else if length (ch_buf ch) < ch_cap ch then Inr (ch\<lparr>ch_buf := ch_buf ch @ [v]\<rparr>, True)
      else Inr (ch, False))"

definition chan_close :: "'a chan \<Rightarrow> panic + 'a chan" where
  "chan_close ch = (if ch_closed ch then Inl CloseOfClosedChannel else Inr (ch\<lparr>ch_closed := True\<rparr>))"

text \<open>
  The hub and the objects it points to. A \<^verbatim>\<open>*Client\<close> is an address; \<open>client_send\<close> is
  the \<^verbatim>\<open>send\<close> channel of the client at each address (addresses from \<open>next_client\<close> on are
  not allocated yet). \<open>clients\<close> holds the keys of \<^verbatim>\<open>map[*Client]bool\<close> (every value stored
  is \<^verbatim>\<open>true\<close>), each once, in the order in which \<^verbatim>\<open>range\<close> visits them. \<^verbatim>\<open>register\<close> and
  \<^verbatim>\<open>unregister\<close> are unbuffered channels: \<open>registering\<close> and \<open>unregistering\<close> hold the
  clients whose senders are waiting for the loop to receive them. A publisher's send on
  \<^verbatim>\<open>broadcast\<close> and the loop's receive of it are one event.
\<close>

record Hub =
  clients :: "nat list"
  client_send :: "nat \<Rightarrow> bytes chan"
  registering :: "nat list"
  unregistering :: "nat list"
  next_client :: nat

definition NewHub :: Hub where
  "NewHub = \<lparr>clients = [], client_send = (\<lambda>_. make_chan 256), registering = [],
     unregistering = [], next_client = 0\<rparr>"

text \<open>\<^verbatim>\<open>case client := <-h.register\<close>\<close>

definition Run_register :: "nat \<Rightarrow> Hub \<Rightarrow> Hub" where
  "Run_register client h =
     h\<lparr>clients := (if client \<in> set (clients h) then clients h else clients h @ [client]),
       registering := remove1 client (registering h)\<rparr>"

text \<open>\<^verbatim>\<open>case client := <-h.unregister\<close>\<close>

definition Run_unregister :: "nat \<Rightarrow> Hub \<Rightarrow> panic + Hub" where
  "Run_unregister client h =
     (let h = h\<lparr>unregistering := remove1 client (unregistering h)\<rparr>
      in if client \<in> set (clients h) then
           (case chan_close (client_send h client) of
              Inl p \<Rightarrow> Inl p
            | Inr ch \<Rightarrow> Inr (h\<lparr>clients := removeAll client (clients h),
                               client_send := (client_send h)(client := ch)\<rparr>))
         else Inr h)"

text \<open>
  \<^verbatim>\<open>case message := <-h.broadcast\<close>: the loop over the clients. The goroutine started in the
  default branch waits to send the client on \<^verbatim>\<open>unregister\<close>.
\<close>

fun broadcast_loop :: "bytes \<Rightarrow> nat list \<Rightarrow> Hub \<Rightarrow> panic + Hub" where
  "broadcast_loop message [] h = Inr h"
| "broadcast_loop message (client # rest) h =
     (case try_send message (client_send h client) of
        Inl p \<Rightarrow> Inl p
      | Inr (ch, sent) \<Rightarrow>
          if sent then broadcast_loop message rest (h\<lparr>client_send := (client_send h)(client := ch)\<rparr>)
          else broadcast_loop message rest (h\<lparr>unregistering := unregistering h @ [client]\<rparr>))"

definition Run_broadcast :: "bytes \<Rightarrow> Hub \<Rightarrow> panic + Hub" where
  "Run_broadcast message h = broadcast_loop message (clients h) h"

text \<open>
  \<^verbatim>\<open>HandleWebSocket\<close>, after the upgrade: a new client with a new channel of 256 messages,
  sent on \<^verbatim>\<open>register\<close>.
\<close>

definition HandleWebSocket :: "Hub \<Rightarrow> Hub" where
  "HandleWebSocket h =
     h\<lparr>client_send := (client_send h)(next_client h := make_chan 256),
       registering := registering h @ [next_client h],
       next_client := Suc (next_client h)\<rparr>"

text \<open>
  The senders on \<^verbatim>\<open>unregister\<close> outside the loop: the deferred call of \<^verbatim>\<open>readPump\<close> and
  \<^verbatim>\<open>Client.Close\<close>.
\<close>

definition send_unregister :: "nat \<Rightarrow> Hub \<Rightarrow> Hub" where
  "send_unregister client h = h\<lparr>unregistering := unregistering h @ [client]\<rparr>"

text \<open>\<^verbatim>\<open>writePump\<close> taking one message out of the client's channel.\<close>

definition receive_send :: "nat \<Rightarrow> Hub \<Rightarrow> Hub" where
  "receive_send client h =
     h\<lparr>client_send := (client_send h)(client := (client_send h client)\<lparr>ch_buf := tl (ch_buf (client_send h client))\<rparr>)\<rparr>"

text \<open>
  The states the hub can be in: from \<^verbatim>\<open>NewHub\<close>, by connections, by the three cases of
  \<^verbatim>\<open>Run\<close> (each on a value that some sender is offering), and by the pumps of the clients
  that exist. A step of \<^verbatim>\<open>Run\<close> that panics has no successor.
\<close>

inductive reachable :: "Hub \<Rightarrow> bool" where
  start: "reachable NewHub"
| connect: "reachable h \<Longrightarrow> reachable (HandleWebSocket h)"
| register: "reachable h \<Longrightarrow> client \<in> set (registering h) \<Longrightarrow> reachable (Run_register client h)"
| unregister: "reachable h \<Longrightarrow> client \<in> set (unregistering h) \<Longrightarrow>
     Run_unregister client h = Inr h' \<Longrightarrow> reachable h'"
| broadcast: "reachable h \<Longrightarrow> Run_broadcast message h = Inr h' \<Longrightarrow> reachable h'"
| pump_unregister: "reachable h \<Longrightarrow> client < next_client h \<Longrightarrow> reachable (send_unregister client h)"
| pump_receive: "reachable h \<Longrightarrow> client < next_client h \<Longrightarrow> reachable (receive_send client h)"

text \<open>The invariant of the hub's state that the loop and the pumps keep.\<close>

definition hub_inv :: "Hub \<Rightarrow> bool" where
  "hub_inv h \<longleftrightarrow>
     distinct (clients h) \<and> distinct (registering h) \<and>
     set (clients h) \<inter> set (registering h) = {} \<and>
     (\<forall>c \<in> set (clients h) \<union> set (registering h).
        c < next_client h \<and> \<not> ch_closed (client_send h c)) \<and>
     (\<forall>c. ch_cap (client_send h c) = 256 \<and> length (ch_buf (client_send h c)) \<le> 256)"

section \<open>Package terminal: sessions and their manager\<close>

text \<open>
  The errors of the package. The source builds them with \<^verbatim>\<open>fmt.Errorf\<close>; each constructor
  stands for one message: \<^verbatim>\<open>maximum sessions reached\<close>, \<^verbatim>\<open>session already exists\<close>,
  \<^verbatim>\<open>shell not allowed: %s\<close>, \<^verbatim>\<open>session not found\<close>. \<open>EOF\<close> is \<^verbatim>\<open>io.EOF\<close>, with which
  \<^verbatim>\<open>Read\<close> and \<^verbatim>\<open>Write\<close> report a closed session; \<open>OSError\<close> is an error handed on from the
  operating system or a library.
\<close>

datatype error =
    CapacityExceeded
  | DuplicateSession
  | ShellNotAllowed string
  | SessionNotFound
  | EOF
  | OSError err

type_synonym uint16 = "16 word"

text \<open>
  \<open>Cmd\<close> is the process to kill: \<open>Some\<close> when \<^verbatim>\<open>s.Cmd\<close> and \<^verbatim>\<open>s.Cmd.Process\<close> are both
  non-nil. \<open>Pty\<close> is the \<^verbatim>\<open>io.ReadWriteCloser\<close> (\<open>None\<close> is nil).
\<close>

record Session =
  ID :: string
  Shell :: string
  Cmd :: "nat option"
  Pty :: "nat option"
  closed :: bool

record Manager =
  sessions :: "(string, Session) fmap"
  maxSessions :: int
  allowedShells :: "string list"
  defaultShell :: string

text \<open>What a call into the operating system does: it returns, or it never returns.\<close>

datatype 'a outcome = Returns 'a | Blocks | Panics panic

text \<open>
  The operating system as the package sees it: \<^verbatim>\<open>runtime.GOOS\<close>, \<^verbatim>\<open>exec.LookPath\<close>, the
  start of a command on a terminal of a given size (done by \<^verbatim>\<open>newPlatformSession\<close>, with a
  PTY on Unix and with pipes on Windows; it answers the process and the terminal), and the
  three calls on a terminal.
\<close>

record os =
  runtime_GOOS :: string
  exec_LookPath :: "string \<Rightarrow> err + string"
  start_command :: "string \<Rightarrow> uint16 \<Rightarrow> uint16 \<Rightarrow> err + (nat \<times> nat)"
  pty_Read :: "nat \<Rightarrow> (bytes \<times> error option) outcome"
  pty_Write :: "nat \<Rightarrow> bytes \<Rightarrow> (nat \<times> error option) outcome"
  pty_Close :: "nat \<Rightarrow> err option"

text \<open>What a call did to the terminal and to the process.\<close>

datatype effect = Kill nat | PtyClose nat | PtyRead nat | PtyWrite nat bytes

definition NewManager :: "int \<Rightarrow> string list \<Rightarrow> string \<Rightarrow> Manager" where
  "NewManager maxS allowed dflt =
     \<lparr>sessions = fmempty, maxSessions = maxS, allowedShells = allowed, defaultShell = dflt\<rparr>"

definition found :: "os \<Rightarrow> string \<Rightarrow> string option" where
  "found sys name = (case exec_LookPath sys name of Inr path \<Rightarrow> Some path | Inl _ \<Rightarrow> None)"

definition GetDefaultShell :: "os \<Rightarrow> Manager \<Rightarrow> string" where
  "GetDefaultShell sys m =
     (case (if defaultShell m \<noteq> [] then found sys (defaultShell m) else None) of
        Some path \<Rightarrow> path
      | None \<Rightarrow>
          if runtime_GOOS sys = ''windows'' then
            (case found sys ''powershell'' of
               Some path \<Rightarrow> path
             | None \<Rightarrow> (case found sys ''cmd'' of Some path \<Rightarrow> path | None \<Rightarrow> []))
          else
            (case found sys ''bash'' of
               Some path \<Rightarrow> path
             | None \<Rightarrow> (case found sys ''sh'' of Some path \<Rightarrow> path | None \<Rightarrow> [])))"

text \<open>\<^verbatim>\<open>for i := len(s) - 1; i >= 0; i-- { if s[i] == c { return i } }; return -1\<close>\<close>

function lastIndex_loop :: "string \<Rightarrow> char \<Rightarrow> int \<Rightarrow> int" where
  "lastIndex_loop s c i =
     (if i \<ge> 0 then (if s ! nat i = c then i else lastIndex_loop s c (i - 1)) else - 1)"
  by pat_completeness auto
termination
  by (relation "measure (\<lambda>(s, c, i). nat (i + 1))") auto

definition lastIndex :: "string \<Rightarrow> char \<Rightarrow> int" where
  "lastIndex s c = lastIndex_loop s c (int (length s) - 1)"

text \<open>The base name that \<^verbatim>\<open>IsShellAllowed\<close> extracts: two tests, the second one winning.\<close>

definition baseName :: "string \<Rightarrow> string" where
  "baseName shell =
     (let b = shell;
          b = (if lastIndex shell (CHR ''/'') \<ge> 0
               then drop (nat (lastIndex shell (CHR ''/'') + 1)) shell else b);
          b = (if lastIndex shell (CHR 0x5C) \<ge> 0
               then drop (nat (lastIndex shell (CHR 0x5C) + 1)) shell else b)
      in b)"

definition IsShellAllowed :: "Manager \<Rightarrow> string \<Rightarrow> bool" where
  "IsShellAllowed m shell =
     list_ex (\<lambda>allowed. shell = allowed \<or> baseName shell = allowed) (allowedShells m)"

definition newPlatformSession :: "os \<Rightarrow> string \<Rightarrow> string \<Rightarrow> uint16 \<Rightarrow> uint16 \<Rightarrow> error + Session" where
  "newPlatformSession sys sid shell cols rows =
     (case start_command sys shell cols rows of
        Inl e \<Rightarrow> Inl (OSError e)
      | Inr (process, terminal) \<Rightarrow>
          Inr \<lparr>ID = sid, Shell = shell, Cmd = Some process, Pty = Some terminal, closed = False\<rparr>)"

text \<open>\<^verbatim>\<open>len(m.sessions)\<close>\<close>

definition live :: "Manager \<Rightarrow> int" where
  "live m = int (fcard (fmdom (sessions m)))"

text \<open>The result is the pair the source returns, and the manager afterwards.\<close>

definition CreateSession :: "os \<Rightarrow> Manager \<Rightarrow> string \<Rightarrow> string \<Rightarrow> uint16 \<Rightarrow> uint16 \<Rightarrow> (error + Session) \<times> Manager" where
  "CreateSession sys m sid shell cols rows =
     (if live m \<ge> maxSessions m then (Inl CapacityExceeded, m)
      else if fmlookup (sessions m) sid \<noteq> None then (Inl DuplicateSession, m)
      else
        (let shell = (if shell = [] then GetDefaultShell sys m else shell)
         in if \<not> IsShellAllowed m shell then (Inl (ShellNotAllowed shell), m)
            else
              (case newPlatformSession sys sid shell cols rows of
                 Inl e \<Rightarrow> (Inl e, m)
               | Inr session \<Rightarrow> (Inr session, m\<lparr>sessions := fmupd sid session (sessions m)\<rparr>))))"

definition IsClosed :: "Session \<Rightarrow> bool" where
  "IsClosed s = closed s"

text \<open>
  \<^verbatim>\<open>Session.Close\<close>: the error returned, the session afterwards, and what was done to the
  process and the terminal.
\<close>

definition Session_Close :: "os \<Rightarrow> Session \<Rightarrow> error option \<times> Session \<times> effect list" where
  "Session_Close sys s =
     (if closed s then (None, s, [])
      else
        (let s' = s\<lparr>closed := True\<rparr>;
             killed = (case Cmd s of Some process \<Rightarrow> [Kill process] | None \<Rightarrow> [])
         in case Pty s of
              Some terminal \<Rightarrow>
                (map_option OSError (pty_Close sys terminal), s', killed @ [PtyClose terminal])
            | None \<Rightarrow> (None, s', killed)))"

text \<open>\<^verbatim>\<open>Manager.CloseSession\<close>; the value of \<^verbatim>\<open>session.Close()\<close> is dropped by the source.\<close>

definition CloseSession :: "os \<Rightarrow> Manager \<Rightarrow> string \<Rightarrow> error option \<times> Manager \<times> effect list" where
  "CloseSession sys m sid =
     (case fmlookup (sessions m) sid of
        None \<Rightarrow> (Some SessionNotFound, m, [])
      | Some session \<Rightarrow>
          (case Session_Close sys session of
             (_, _, did) \<Rightarrow> (None, m\<lparr>sessions := fmdrop sid (sessions m)\<rparr>, did)))"

text \<open>
  \<^verbatim>\<open>Session.Read\<close> and \<^verbatim>\<open>Session.Write\<close>: what the call does, and which calls reached the
  terminal. A nil \<^verbatim>\<open>Pty\<close> is dereferenced.
\<close>

definition Session_Read :: "os \<Rightarrow> Session \<Rightarrow> (bytes \<times> error option) outcome \<times> effect list" where
  "Session_Read sys s =
     (if IsClosed s then (Returns ([], Some EOF), [])
      else (case Pty s of
              None \<Rightarrow> (Panics NilDereference, [])
            | Some terminal \<Rightarrow> (pty_Read sys terminal, [PtyRead terminal])))"

definition Session_Write :: "os \<Rightarrow> Session \<Rightarrow> bytes \<Rightarrow> (nat \<times> error option) outcome \<times> effect list" where
  "Session_Write sys s p =
     (if IsClosed s then (Returns (0, Some EOF), [])
      else (case Pty s of
              None \<Rightarrow> (Panics NilDereference, [])
            | Some terminal \<Rightarrow> (pty_Write sys terminal p, [PtyWrite terminal p])))"

text \<open>
  A run of the manager: each request comes with what the operating system answers while it
  is served.
\<close>

datatype request = Create string string uint16 uint16 | Close string

fun serve :: "Manager \<Rightarrow> os \<times> request \<Rightarrow> Manager" where
  "serve m (sys, Create sid shell cols rows) = snd (CreateSession sys m sid shell cols rows)"
| "serve m (sys, Close sid) = fst (snd (CloseSession sys m sid))"

definition serve_all :: "Manager \<Rightarrow> (os \<times> request) list \<Rightarrow> Manager" where
  "serve_all m rs = foldl serve m rs"

section \<open>Package websocket: the two pumps of a client\<close>

text \<open>
  Instants and durations are counted in nanoseconds, as \<^verbatim>\<open>time.Duration\<close> does. A
  connection keeps the limits and deadlines set on it and the frames written to it.
\<close>

definition Second :: nat where
  "Second = 1000000000"

datatype frame = TextMessage bytes | PingMessage | CloseMessage

record Conn =
  readLimit :: nat
  readDeadline :: Time
  writeDeadline :: Time
  written :: "frame list"
  conn_closed :: bool

text \<open>
  What reaches \<^verbatim>\<open>ReadMessage\<close>, and when: a data message (returned to the caller), a pong
  (handed to the pong handler, the read going on), or a failure (a close frame, a broken
  socket, a message above the read limit). The connection applies its read deadline: when
  it has passed before something arrives, \<^verbatim>\<open>ReadMessage\<close> fails with a timeout; so it does
  when nothing arrives any more.
\<close>

datatype arrival = Message bytes | Pong | Failure err

text \<open>
  The loop of \<^verbatim>\<open>readPump\<close> with its pong handler: the connection when the loop is left and
  the messages it has read.
\<close>

fun read_loop :: "Conn \<Rightarrow> (Time \<times> arrival) list \<Rightarrow> Conn \<times> bytes list" where
  "read_loop conn [] = (conn, [])"
| "read_loop conn ((t, a) # rest) =
     (if readDeadline conn < t then (conn, [])
      else (case a of
              Failure e \<Rightarrow> (conn, [])
            | Pong \<Rightarrow> read_loop (conn\<lparr>readDeadline := t + 60 * Second\<rparr>) rest
            | Message message \<Rightarrow>
                (case read_loop conn rest of (conn', ms) \<Rightarrow> (conn', message # ms))))"

text \<open>
  \<^verbatim>\<open>readPump\<close> of the client at address \<open>c\<close>, started at \<open>now\<close>: the deferred function sends
  the client on \<^verbatim>\<open>unregister\<close> and closes the connection.
\<close>

definition readPump :: "nat \<Rightarrow> Hub \<Rightarrow> Conn \<Rightarrow> Time \<Rightarrow> (Time \<times> arrival) list \<Rightarrow> Hub \<times> Conn \<times> bytes list" where
  "readPump c h conn now arrivals =
     (let conn = conn\<lparr>readLimit := 512 * 1024, readDeadline := now + 60 * Second\<rparr>
      in case read_loop conn arrivals of
           (conn, received) \<Rightarrow> (send_unregister c h, conn\<lparr>conn_closed := True\<rparr>, received))"

text \<open>
  What wakes \<^verbatim>\<open>writePump\<close>: its channel (with the errors of \<^verbatim>\<open>NextWriter\<close> and of the
  writer's \<^verbatim>\<open>Close\<close>) or its ticker (with the error of \<^verbatim>\<open>WriteMessage\<close>). The result is
  the connection, the channel, and whether the pump has returned. A wake-up by a channel
  that is open and empty cannot happen and is passed over.
\<close>

datatype wake = FromSend "err option" "err option" | Tick "err option"

fun writePump_loop :: "Conn \<Rightarrow> bytes chan \<Rightarrow> (Time \<times> wake) list \<Rightarrow> Conn \<times> bytes chan \<times> bool" where
  "writePump_loop conn ch [] = (conn, ch, False)"
| "writePump_loop conn ch ((now, Tick werr) # rest) =
     (let conn = conn\<lparr>writeDeadline := now + 10 * Second\<rparr>
      in case werr of
           Some e \<Rightarrow> (conn, ch, True)
         | None \<Rightarrow> writePump_loop (conn\<lparr>written := written conn @ [PingMessage]\<rparr>) ch rest)"
| "writePump_loop conn ch ((now, FromSend nerr cerr) # rest) =
     (case ch_buf ch of
        [] \<Rightarrow>
          if ch_closed ch
          then (conn\<lparr>writeDeadline := now + 10 * Second,
                     written := written conn @ [CloseMessage]\<rparr>, ch, True)
          else writePump_loop conn ch rest
      | message # pending \<Rightarrow>
          (let conn = conn\<lparr>writeDeadline := now + 10 * Second\<rparr>;
               ch = ch\<lparr>ch_buf := pending\<rparr>
           in case nerr of
                Some e \<Rightarrow> (conn, ch, True)
              | None \<Rightarrow>
                  (let ch = ch\<lparr>ch_buf := []\<rparr>
                   in case cerr of
                        Some e \<Rightarrow> (conn, ch, True)
                      | None \<Rightarrow>
                          writePump_loop
                            (conn\<lparr>written := written conn @
                               [TextMessage (message @ concat (map (\<lambda>m. CHR 0x0A # m) pending))]\<rparr>)
                            ch rest)))"

definition writePump :: "Conn \<Rightarrow> bytes chan \<Rightarrow> (Time \<times> wake) list \<Rightarrow> Conn \<times> bytes chan \<times> bool" where
  "writePump conn ch wakes =
     (case writePump_loop conn ch wakes of
        (conn, ch, returned) \<Rightarrow>
          ((if returned then conn\<lparr>conn_closed := True\<rparr> else conn), ch, returned))"

text \<open>
  \<^verbatim>\<open>time.NewTicker(30 * time.Second)\<close>: the instants at which the ticker of a pump started
  at \<open>start\<close> fires, here the first \<open>n\<close> of them, each write succeeding.
\<close>

definition ticker_period :: nat where
  "ticker_period = 30 * Second"

definition ticker_wakes :: "Time \<Rightarrow> nat \<Rightarrow> (Time \<times> wake) list" where
  "ticker_wakes start n = map (\<lambda>k. (start + (k + 1) * ticker_period, Tick None)) [0..<n]"

section \<open>Concrete inputs\<close>

text \<open>A tick on which every library call fails, at the instant \<open>t\<close>.\<close>

definition quiet_probes :: "Time \<Rightarrow> probes" where
  "quiet_probes t =
     \<lparr>time_Now = t, runtime_NumCPU = 4,
      host_Info = Inl ''host: no answer'',
      cpu_Info = Inl ''cpu: no answer'',
      cpu_Percent_each = Inl ''cpu: no answer'',
      cpu_Percent_all = Inl ''cpu: no answer'',
      mem_VirtualMemory = Inl ''mem: no answer'',
      mem_SwapMemory = Inl ''swap: no answer'',
      disk_Partitions = Inl ''disk: no answer'',
      disk_Usage = (\<lambda>_. Inl ''usage: no answer''),
      net_IOCounters = Inl ''net: no answer''\<rparr>"

definition collector_without_store :: Collector where
  "collector_without_store =
     \<lparr>storage = None, interval = Second, history = [], histSize = 2, subscribers = [(0, [])]\<rparr>"

definition collector_with_store :: Collector where
  "collector_with_store =
     \<lparr>storage = Some 0, interval = Second, history = [], histSize = 2, subscribers = [(0, [])]\<rparr>"

definition new_collector :: Collector where
  "new_collector = \<lparr>storage = None, interval = Second, history = [], histSize = 2, subscribers = []\<rparr>"

text \<open>
  A hub with two registered clients, each with the same \<open>k\<close> messages waiting; and the hub
  in which both queues have filled up and the second client has then taken one message.
\<close>

definition filled_hub :: "nat \<Rightarrow> Hub" where
  "filled_hub k =
     \<lparr>clients = [0, 1],
      client_send = (\<lambda>c. if c < 2 then \<lparr>ch_buf = replicate k ''tick'', ch_cap = 256, ch_closed = False\<rparr>
                          else make_chan 256),
      registering = [], unregistering = [], next_client = 2\<rparr>"

definition slow_hub :: Hub where
  "slow_hub = receive_send 1 (filled_hub 256)"

section \<open>The collector: history, latest snapshot, failing sub-collections\<close>

subsection \<open>The history after a run of ticks\<close>

lemma keep_keep:
  "drop (length (drop (length xs - H) xs @ ys) - H) (drop (length xs - H) xs @ ys)
   = drop (length (xs @ ys) - H) (xs @ ys)" for H :: nat
  by (cases "length xs \<le> H") (auto simp: add.commute)

lemma history_collect:
  "int (length (history c)) \<le> histSize c \<Longrightarrow>
   history (fst (collect c p)) =
     drop (length (history c @ [gather p]) - nat (histSize c)) (history c @ [gather p])"
proof (cases "int (length (history c)) = histSize c")
  case True
  then have "nat (histSize c) = length (history c)" by simp
  then show ?thesis using True by (simp add: collect_def Let_def)
next
  case False
  assume "int (length (history c)) \<le> histSize c"
  with False have "length (history c) < nat (histSize c)"
    and "\<not> histSize c < 1 + int (length (history c))" by auto
  then show ?thesis by (simp add: collect_def Let_def)
qed

lemma histSize_collect: "histSize (fst (collect c p)) = histSize c"
  by (simp add: collect_def Let_def split: option.splits)

lemma length_history_collect:
  "int (length (history c)) \<le> histSize c \<Longrightarrow> int (length (history (fst (collect c p)))) \<le> histSize c"
  by (auto simp: collect_def Let_def)

lemma history_ticks:
  "int (length (history c)) \<le> histSize c \<Longrightarrow>
   history (ticks c ps) =
     drop (length (history c @ map gather ps) - nat (histSize c)) (history c @ map gather ps)
   \<and> histSize (ticks c ps) = histSize c"
proof (induction ps arbitrary: c)
  case Nil
  then show ?case by simp
next
  case (Cons p ps)
  let ?c1 = "fst (collect c p)"
  have l: "int (length (history ?c1)) \<le> histSize ?c1"
    using length_history_collect[OF Cons.prems] by (simp add: histSize_collect)
  have "history (ticks ?c1 ps) =
     drop (length (history ?c1 @ map gather ps) - nat (histSize c)) (history ?c1 @ map gather ps)"
    using Cons.IH[OF l] by (simp add: histSize_collect)
  also have "\<dots> = drop (length ((history c @ [gather p]) @ map gather ps) - nat (histSize c))
                    ((history c @ [gather p]) @ map gather ps)"
    unfolding history_collect[OF Cons.prems] by (rule keep_keep)
  finally show ?case using Cons.IH[OF l] by (simp add: histSize_collect)
qed

lemma NewCollector_Inr:
  "NewCollector store ival H = Inr c \<Longrightarrow> history c = [] \<and> histSize c = H \<and> 0 \<le> H"
  by (auto simp: NewCollector_def split: if_splits)

lemma gather_Timestamp: "Timestamp (gather p) = time_Now p"
  by (simp add: gather_def Let_def split: sum.splits)

text \<open>
  Claim C1. A collector made by \<^verbatim>\<open>NewCollector\<close> with history size \<open>H\<close> (a negative size
  makes the constructor panic, so \<open>H\<close> is not negative) never shows more than \<open>H\<close> entries:
  after every prefix of a run of ticks, \<^verbatim>\<open>GetHistory\<close> returns at most \<open>H\<close> snapshots. After
  \<open>H + k\<close> ticks it returns exactly the snapshots of the last \<open>H\<close> ticks, in the order in
  which they were collected (the first \<open>k\<close> have been evicted, oldest first), so their
  timestamps are the clock readings of those ticks in that order.
\<close>

theorem history_bounded_fifo:
  assumes "NewCollector store ival H = Inr c"
  shows "(\<forall>n \<le> length ps. int (length (GetHistory (ticks c (take n ps)))) \<le> H) \<and>
         (length ps = nat H + k \<longrightarrow>
            GetHistory (ticks c ps) = map gather (drop k ps) \<and>
            length (GetHistory (ticks c ps)) = nat H \<and>
            map Timestamp (GetHistory (ticks c ps)) = map time_Now (drop k ps))"
proof -
  have c: "history c = []" "histSize c = H" "0 \<le> H"
    using NewCollector_Inr[OF assms] by auto
  have l: "int (length (history c)) \<le> histSize c" using c by simp
  have h: "history (ticks c qs) = drop (length qs - nat H) (map gather qs)" for qs
    using history_ticks[OF l, of qs] c by simp
  have a: "\<forall>n \<le> length ps. int (length (GetHistory (ticks c (take n ps)))) \<le> H"
    using c by (auto simp: GetHistory_def h)
  have b: "length ps = nat H + k \<longrightarrow>
            GetHistory (ticks c ps) = map gather (drop k ps) \<and>
            length (GetHistory (ticks c ps)) = nat H \<and>
            map Timestamp (GetHistory (ticks c ps)) = map time_Now (drop k ps)"
    by (auto simp: GetHistory_def h drop_map gather_Timestamp)
  show ?thesis using a b by blast
qed

theorem history_bounded_fifo_witness:
  "NewCollector None Second 2 = Inr new_collector \<and>
   length (GetHistory (ticks new_collector (take 2 [quiet_probes 1, quiet_probes 2, quiet_probes 3]))) \<le> 2 \<and>
   GetHistory (ticks new_collector [quiet_probes 1, quiet_probes 2, quiet_probes 3])
     = [gather (quiet_probes 2), gather (quiet_probes 3)] \<and>
   map Timestamp (GetHistory (ticks new_collector [quiet_probes 1, quiet_probes 2, quiet_probes 3]))
     = [2, 3]"
proof -
  have n: "NewCollector None Second 2 = Inr new_collector"
    by (simp add: NewCollector_def new_collector_def)
  have t: "time_Now (quiet_probes t) = t" for t
    by (simp add: quiet_probes_def)
  have two: "(2::nat) \<le> length [quiet_probes 1, quiet_probes 2, quiet_probes 3]" by simp
  have "int (length (GetHistory (ticks new_collector
          (take 2 [quiet_probes 1, quiet_probes 2, quiet_probes 3])))) \<le> 2"
    using history_bounded_fifo [OF n, of "[quiet_probes 1, quiet_probes 2, quiet_probes 3]" 1] two
    by blast
  then show ?thesis
    using history_bounded_fifo [OF n, of "[quiet_probes 1, quiet_probes 2, quiet_probes 3]" 1] n t
    by (simp add: gather_Timestamp)
qed

subsection \<open>The latest snapshot of an empty history\<close>

text \<open>
  Claim C10. When the history is empty, \<^verbatim>\<open>GetLatest\<close> returns the zero value of
  \<^verbatim>\<open>AllMetrics\<close>: every field at its zero default, the timestamp the zero instant. It
  indexes nothing and returns a value.
\<close>

theorem GetLatest_empty:
  "history c = [] \<Longrightarrow> GetLatest c = zero_AllMetrics \<and> Timestamp (GetLatest c) = 0"
  by (simp add: GetLatest_def zero_AllMetrics_def)

theorem GetLatest_empty_witness:
  "history new_collector = [] \<and> GetLatest new_collector = zero_AllMetrics \<and>
   Timestamp (GetLatest new_collector) = 0"
proof -
  have h: "history new_collector = []" by (simp add: new_collector_def)
  show ?thesis using GetLatest_empty [OF h] h by blast
qed

subsection \<open>A tick whose sub-collections fail\<close>

lemma gather_System:
  "System (gather p) = (case GetSystemInfo p of Inl e \<Rightarrow> zero_SystemInfo | Inr info \<Rightarrow> info)"
  by (simp add: gather_def Let_def zero_AllMetrics_def split: sum.splits)

lemma gather_CPU:
  "CPU (gather p) = (case GetCPUInfo p of Inl e \<Rightarrow> zero_CPUInfo | Inr info \<Rightarrow> info)"
  by (simp add: gather_def Let_def zero_AllMetrics_def split: sum.splits)

lemma gather_Memory:
  "Memory (gather p) = (case GetMemoryInfo p of Inl e \<Rightarrow> zero_MemoryInfo | Inr info \<Rightarrow> info)"
  by (simp add: gather_def Let_def zero_AllMetrics_def split: sum.splits)

lemma gather_Disks:
  "Disks (gather p) = (case GetDiskInfo p of Inl e \<Rightarrow> [] | Inr disks \<Rightarrow> disks)"
  by (simp add: gather_def Let_def zero_AllMetrics_def split: sum.splits)

lemma gather_Network:
  "Network (gather p) = (case GetNetworkInfo p of Inl e \<Rightarrow> [] | Inr net \<Rightarrow> net)"
  by (simp add: gather_def Let_def zero_AllMetrics_def split: sum.splits)

lemma GetCPUInfo_all_fail:
  "cpu_Info p = Inl e1 \<Longrightarrow> cpu_Percent_each p = Inl e2 \<Longrightarrow> cpu_Percent_all p = Inl e3 \<Longrightarrow>
   GetCPUInfo p = Inr zero_CPUInfo"
  by (simp add: GetCPUInfo_def Let_def)

lemma collect_history_kept:
  "0 < histSize c \<Longrightarrow> history (fst (collect c p)) \<noteq> [] \<and> last (history (fst (collect c p))) = gather p"
  by (cases "history c") (auto simp: collect_def Let_def)

lemma notifySubscribers_nth:
  "i < length subs \<Longrightarrow>
   notifySubscribers m subs ! i =
     (fst (subs ! i),
      if length (snd (subs ! i)) < subscriber_cap then snd (subs ! i) @ [m] else snd (subs ! i))"
  by (simp add: notifySubscribers_def split_beta)

text \<open>
  Claim C9, as the source has it. A tick whose sub-collections fail is not aborted. The
  snapshot carries the clock reading; the system, memory, disk and network sections are at
  their zero value when their sub-collection returns an error (the CPU sub-collection
  returns no error: when its three library calls fail, its section is the zero value). The
  snapshot is appended to the history (the oldest entry leaving on overflow; with a history
  size of at least 1 it is the newest entry afterwards) and offered to every subscriber (put
  into each buffer with room, full ones skipped). It is handed to the store when the
  collector has one; a collector without a store (the server goes on without storage when
  the database cannot be opened) skips that step. \<^verbatim>\<open>collect\<close> returns nothing to its caller,
  so no failure reaches the ticking loop.
\<close>

theorem collect_survives_failures:
  "Timestamp (gather p) = time_Now p \<and>
   (\<forall>e. GetSystemInfo p = Inl e \<longrightarrow> System (gather p) = zero_SystemInfo) \<and>
   (\<forall>e1 e2 e3. cpu_Info p = Inl e1 \<and> cpu_Percent_each p = Inl e2 \<and> cpu_Percent_all p = Inl e3
       \<longrightarrow> CPU (gather p) = zero_CPUInfo) \<and>
   (\<forall>e. GetMemoryInfo p = Inl e \<longrightarrow> Memory (gather p) = zero_MemoryInfo) \<and>
   (\<forall>e. GetDiskInfo p = Inl e \<longrightarrow> Disks (gather p) = []) \<and>
   (\<forall>e. GetNetworkInfo p = Inl e \<longrightarrow> Network (gather p) = []) \<and>
   history (fst (collect c p)) =
     (if int (length (history c)) < histSize c then history c @ [gather p]
      else drop 1 (history c @ [gather p])) \<and>
   (0 < histSize c \<longrightarrow> last (history (fst (collect c p))) = gather p) \<and>
   (\<forall>s. storage c = Some s \<longrightarrow> snd (collect c p) = Some (s, entry_of (gather p))) \<and>
   (storage c = None \<longrightarrow> snd (collect c p) = None) \<and>
   length (subscribers (fst (collect c p))) = length (subscribers c) \<and>
   (\<forall>i < length (subscribers c).
      subscribers (fst (collect c p)) ! i =
        (fst (subscribers c ! i),
         if length (snd (subscribers c ! i)) < subscriber_cap
         then snd (subscribers c ! i) @ [gather p] else snd (subscribers c ! i)))"
proof -
  have a: "\<forall>e. GetSystemInfo p = Inl e \<longrightarrow> System (gather p) = zero_SystemInfo"
    by (simp add: gather_System)
  have b: "\<forall>e1 e2 e3. cpu_Info p = Inl e1 \<and> cpu_Percent_each p = Inl e2 \<and> cpu_Percent_all p = Inl e3
       \<longrightarrow> CPU (gather p) = zero_CPUInfo"
    by (auto simp: gather_CPU dest: GetCPUInfo_all_fail)
  have c: "\<forall>e. GetMemoryInfo p = Inl e \<longrightarrow> Memory (gather p) = zero_MemoryInfo"
    by (simp add: gather_Memory)
  have d: "\<forall>e. GetDiskInfo p = Inl e \<longrightarrow> Disks (gather p) = []"
    by (simp add: gather_Disks)
  have e: "\<forall>e. GetNetworkInfo p = Inl e \<longrightarrow> Network (gather p) = []"
    by (simp add: gather_Network)
  have f: "history (fst (collect c p)) =
     (if int (length (history c)) < histSize c then history c @ [gather p]
      else drop 1 (history c @ [gather p]))"
    by (auto simp: collect_def Let_def)
  have g: "0 < histSize c \<longrightarrow> last (history (fst (collect c p))) = gather p"
    using collect_history_kept by blast
  have h: "\<forall>s. storage c = Some s \<longrightarrow> snd (collect c p) = Some (s, entry_of (gather p))"
    by (simp add: collect_def Let_def)
  have i: "storage c = None \<longrightarrow> snd (collect c p) = None"
    by (simp add: collect_def Let_def)
  have j: "length (subscribers (fst (collect c p))) = length (subscribers c)"
    by (simp add: collect_def Let_def notifySubscribers_def)
  have k: "\<forall>i < length (subscribers c).
      subscribers (fst (collect c p)) ! i =
        (fst (subscribers c ! i),
         if length (snd (subscribers c ! i)) < subscriber_cap
         then snd (subscribers c ! i) @ [gather p] else snd (subscribers c ! i))"
    by (simp add: collect_def Let_def notifySubscribers_nth)
  show ?thesis using gather_Timestamp a b c d e f g h i j k by blast
qed

theorem collect_survives_failures_witness:
  "GetDiskInfo (quiet_probes 5) = Inl ''disk: no answer'' \<and>
   Disks (gather (quiet_probes 5)) = [] \<and>
   storage collector_with_store = Some 0 \<and>
   snd (collect collector_with_store (quiet_probes 5)) = Some (0, entry_of (gather (quiet_probes 5))) \<and>
   history (fst (collect collector_with_store (quiet_probes 5))) = [gather (quiet_probes 5)] \<and>
   subscribers (fst (collect collector_with_store (quiet_probes 5))) ! 0 = (0, [gather (quiet_probes 5)])"
proof -
  have d: "GetDiskInfo (quiet_probes 5) = Inl ''disk: no answer''"
    by (simp add: GetDiskInfo_def quiet_probes_def)
  have s: "storage collector_with_store = Some 0"
    and h: "history collector_with_store = []" "histSize collector_with_store = 2"
    and u: "subscribers collector_with_store = [(0, [])]"
    by (simp_all add: collector_with_store_def)
  show ?thesis
    using collect_survives_failures [of "quiet_probes 5" collector_with_store] d s h u
    by (simp add: subscriber_cap_def)
qed

text \<open>
  The claim as first worded (the partial snapshot is persisted on every tick) fails on a
  collector without a store: the tick below, on which the disk enumeration and every other
  library call fails, hands nothing to any store.
\<close>

theorem collect_without_store_counterexample:
  "snd (collect collector_without_store (quiet_probes 5)) = None"
  by (simp add: collect_def collector_without_store_def Let_def)

section \<open>The hub: the client set and the broadcast\<close>

lemma broadcast_loop_result:
  "distinct cs \<Longrightarrow> \<forall>c\<in>set cs. \<not> ch_closed (client_send h c) \<Longrightarrow>
   broadcast_loop m cs h =
     Inr (h\<lparr>client_send := (\<lambda>c. if c \<in> set cs \<and> length (ch_buf (client_send h c)) < ch_cap (client_send h c)
                                then (client_send h c)\<lparr>ch_buf := ch_buf (client_send h c) @ [m]\<rparr>
                                else client_send h c),
           unregistering := unregistering h @
              filter (\<lambda>c. \<not> length (ch_buf (client_send h c)) < ch_cap (client_send h c)) cs\<rparr>)"
proof (induction cs arbitrary: h)
  case Nil
  then show ?case by simp
next
  case (Cons c cs)
  have d: "distinct cs" and nin: "c \<notin> set cs" using Cons.prems(1) by auto
  show ?case
  proof (cases "length (ch_buf (client_send h c)) < ch_cap (client_send h c)")
    case True
    let ?h1 = "h\<lparr>client_send := (client_send h)(c := (client_send h c)\<lparr>ch_buf := ch_buf (client_send h c) @ [m]\<rparr>)\<rparr>"
    have op: "\<forall>x\<in>set cs. \<not> ch_closed (client_send ?h1 x)" using Cons.prems(2) nin by auto
    have step: "broadcast_loop m (c # cs) h = broadcast_loop m cs ?h1"
      using True Cons.prems(2) by (simp add: try_send_def)
    have f: "filter (\<lambda>x. \<not> length (ch_buf (client_send ?h1 x)) < ch_cap (client_send ?h1 x)) cs =
             filter (\<lambda>x. \<not> length (ch_buf (client_send h x)) < ch_cap (client_send h x)) cs"
      using nin by (intro filter_cong) auto
    show ?thesis
      unfolding step Cons.IH[OF d op] f using nin True
      by (auto intro!: Hub.equality simp: fun_eq_iff)
  next
    case False
    let ?h1 = "h\<lparr>unregistering := unregistering h @ [c]\<rparr>"
    have op: "\<forall>x\<in>set cs. \<not> ch_closed (client_send ?h1 x)" using Cons.prems(2) by auto
    have step: "broadcast_loop m (c # cs) h = broadcast_loop m cs ?h1"
      using False Cons.prems(2) by (simp add: try_send_def)
    show ?thesis
      unfolding step Cons.IH[OF d op] using nin False
      by (auto intro!: Hub.equality simp: fun_eq_iff)
  qed
qed

lemma inv_NewHub: "hub_inv NewHub"
  by (simp add: hub_inv_def NewHub_def make_chan_def)

lemma inv_HandleWebSocket: "hub_inv h \<Longrightarrow> hub_inv (HandleWebSocket h)"
  by (auto simp: hub_inv_def HandleWebSocket_def make_chan_def less_Suc_eq)

lemma inv_Run_register: "hub_inv h \<Longrightarrow> client \<in> set (registering h) \<Longrightarrow> hub_inv (Run_register client h)"
  by (auto simp: hub_inv_def Run_register_def dest: notin_set_remove1)

lemma inv_Run_unregister: "hub_inv h \<Longrightarrow> Run_unregister client h = Inr h' \<Longrightarrow> hub_inv h'"
  by (auto simp: hub_inv_def Run_unregister_def chan_close_def Let_def distinct_removeAll split: if_splits)

lemma inv_Run_broadcast:
  assumes i: "hub_inv h" and r: "Run_broadcast m h = Inr h'"
  shows "hub_inv h'"
proof -
  have "distinct (clients h)" "\<forall>c\<in>set (clients h). \<not> ch_closed (client_send h c)"
    using i by (auto simp: hub_inv_def)
  from broadcast_loop_result[OF this, of m] r
  have h': "h' = h\<lparr>client_send := (\<lambda>c. if c \<in> set (clients h) \<and> length (ch_buf (client_send h c)) < ch_cap (client_send h c)
                                then (client_send h c)\<lparr>ch_buf := ch_buf (client_send h c) @ [m]\<rparr>
                                else client_send h c),
           unregistering := unregistering h @
              filter (\<lambda>c. \<not> length (ch_buf (client_send h c)) < ch_cap (client_send h c)) (clients h)\<rparr>"
    by (simp add: Run_broadcast_def)
  have cap: "\<And>c. ch_cap (client_send h c) = 256" and len: "\<And>c. length (ch_buf (client_send h c)) \<le> 256"
    using i by (auto simp: hub_inv_def)
  show ?thesis using i unfolding h' hub_inv_def
    by (auto simp: cap Suc_le_eq)
qed

lemma inv_send_unregister: "hub_inv h \<Longrightarrow> hub_inv (send_unregister c h)"
  by (auto simp: hub_inv_def send_unregister_def)

lemma inv_receive_send: "hub_inv h \<Longrightarrow> hub_inv (receive_send c h)"
  by (auto simp: hub_inv_def receive_send_def intro: le_trans [OF diff_le_self])

lemma reachable_inv: "reachable h \<Longrightarrow> hub_inv h"
  by (induction rule: reachable.induct)
     (auto intro: inv_NewHub inv_HandleWebSocket inv_Run_register inv_Run_unregister
        inv_Run_broadcast inv_send_unregister inv_receive_send)

lemma Run_unregister_present:
  "c \<in> set (clients h) \<Longrightarrow> \<not> ch_closed (client_send h c) \<Longrightarrow>
   Run_unregister c h =
     Inr (h\<lparr>unregistering := remove1 c (unregistering h),
            clients := removeAll c (clients h),
            client_send := (client_send h)(c := (client_send h c)\<lparr>ch_closed := True\<rparr>)\<rparr>)"
  by (simp add: Run_unregister_def Let_def chan_close_def)

lemma Run_unregister_absent:
  "c \<notin> set (clients h) \<Longrightarrow>
   Run_unregister c h = Inr (h\<lparr>unregistering := remove1 c (unregistering h)\<rparr>)"
  by (simp add: Run_unregister_def Let_def)

text \<open>
  Claim C7. In every state the hub can reach, each client in the set has an open channel,
  so a send on it never panics (it is taken or refused, by room). Unregistering a client of
  the set removes its entry and closes its channel in the same step of the loop, leaving
  every other entry and channel as it was. Unregistering a client that is not in the set
  changes neither the set nor any channel (only the waiting sender is released), so a
  second unregistration of the same client, such as the deferred one of a slow client
  already dropped, is without effect; no unregistration panics.
\<close>

theorem hub_client_set:
  assumes "reachable h"
  shows "(\<forall>c \<in> set (clients h).
            \<not> ch_closed (client_send h c) \<and> (\<forall>m. \<exists>r. try_send m (client_send h c) = Inr r)) \<and>
         (\<forall>c \<in> set (clients h).
            Run_unregister c h =
              Inr (h\<lparr>unregistering := remove1 c (unregistering h),
                     clients := removeAll c (clients h),
                     client_send := (client_send h)(c := (client_send h c)\<lparr>ch_closed := True\<rparr>)\<rparr>)) \<and>
         (\<forall>c. c \<notin> set (clients h) \<longrightarrow>
            Run_unregister c h = Inr (h\<lparr>unregistering := remove1 c (unregistering h)\<rparr>)) \<and>
         (\<forall>c h'. Run_unregister c h = Inr h' \<longrightarrow>
            Run_unregister c h' = Inr (h'\<lparr>unregistering := remove1 c (unregistering h')\<rparr>)) \<and>
         (\<forall>c. \<exists>h'. Run_unregister c h = Inr h')"
proof -
  have inv: "hub_inv h" using assms by (rule reachable_inv)
  have op: "\<forall>c \<in> set (clients h). \<not> ch_closed (client_send h c)"
    using inv by (simp add: hub_inv_def)
  have a: "\<forall>c \<in> set (clients h).
            \<not> ch_closed (client_send h c) \<and> (\<forall>m. \<exists>r. try_send m (client_send h c) = Inr r)"
    using op by (auto simp: try_send_def)
  have b: "\<forall>c \<in> set (clients h).
            Run_unregister c h =
              Inr (h\<lparr>unregistering := remove1 c (unregistering h),
                     clients := removeAll c (clients h),
                     client_send := (client_send h)(c := (client_send h c)\<lparr>ch_closed := True\<rparr>)\<rparr>)"
    using op by (simp add: Run_unregister_present)
  have c: "\<forall>c. c \<notin> set (clients h) \<longrightarrow>
            Run_unregister c h = Inr (h\<lparr>unregistering := remove1 c (unregistering h)\<rparr>)"
    by (simp add: Run_unregister_absent)
  have d: "\<forall>c h'. Run_unregister c h = Inr h' \<longrightarrow>
            Run_unregister c h' = Inr (h'\<lparr>unregistering := remove1 c (unregistering h')\<rparr>)"
  proof (intro allI impI)
    fix c h' assume r: "Run_unregister c h = Inr h'"
    have "c \<notin> set (clients h')"
      using r by (auto simp: Run_unregister_def Let_def split: if_splits sum.splits)
    then show "Run_unregister c h' = Inr (h'\<lparr>unregistering := remove1 c (unregistering h')\<rparr>)"
      by (rule Run_unregister_absent)
  qed
  have e: "\<forall>c. \<exists>h'. Run_unregister c h = Inr h'"
  proof
    fix c show "\<exists>h'. Run_unregister c h = Inr h'"
      using b c by (cases "c \<in> set (clients h)") auto
  qed
  show ?thesis using a b c d e by blast
qed

text \<open>
  Claim C2. In every state the hub can reach, the broadcast of a message returns without
  a panic and leaves the client set as it is. A client whose queue is full keeps its queue
  unchanged (the message is dropped for it) and is put among the senders waiting on
  \<^verbatim>\<open>unregister\<close>; when the loop later takes that request, the client leaves the set and
  its channel is closed. Every other client of the set gets the message at the end of its
  queue. The loop is a recursion over the clients that waits for none of them.
\<close>

theorem broadcast_sheds_slow_clients:
  assumes "reachable h"
  shows "\<exists>h'. Run_broadcast m h = Inr h' \<and> reachable h' \<and> clients h' = clients h \<and>
           (\<forall>c \<in> set (clients h).
              (length (ch_buf (client_send h c)) < ch_cap (client_send h c) \<longrightarrow>
                 client_send h' c = (client_send h c)\<lparr>ch_buf := ch_buf (client_send h c) @ [m]\<rparr>) \<and>
              (\<not> length (ch_buf (client_send h c)) < ch_cap (client_send h c) \<longrightarrow>
                 client_send h' c = client_send h c \<and> c \<in> set (unregistering h') \<and>
                 (\<exists>h''. Run_unregister c h' = Inr h'' \<and> c \<notin> set (clients h'') \<and>
                         ch_closed (client_send h'' c))))"
proof -
  have inv: "hub_inv h" using assms by (rule reachable_inv)
  have "distinct (clients h)" "\<forall>c\<in>set (clients h). \<not> ch_closed (client_send h c)"
    using inv by (auto simp: hub_inv_def)
  from broadcast_loop_result[OF this, of m]
  obtain h' where r: "Run_broadcast m h = Inr h'"
    and h': "h' = h\<lparr>client_send := (\<lambda>c. if c \<in> set (clients h) \<and> length (ch_buf (client_send h c)) < ch_cap (client_send h c)
                                then (client_send h c)\<lparr>ch_buf := ch_buf (client_send h c) @ [m]\<rparr>
                                else client_send h c),
           unregistering := unregistering h @
              filter (\<lambda>c. \<not> length (ch_buf (client_send h c)) < ch_cap (client_send h c)) (clients h)\<rparr>"
    by (simp add: Run_broadcast_def)
  have re: "reachable h'" using assms r by (rule reachable.broadcast)
  have op': "\<forall>c\<in>set (clients h'). \<not> ch_closed (client_send h' c)"
    using reachable_inv[OF re] by (simp add: hub_inv_def)
  have cl: "clients h' = clients h" by (simp add: h')
  have slow: "\<exists>h''. Run_unregister c h' = Inr h'' \<and> c \<notin> set (clients h'') \<and> ch_closed (client_send h'' c)"
    if "c \<in> set (clients h)" for c
  proof -
    have "c \<in> set (clients h')" using that cl by simp
    moreover have "\<not> ch_closed (client_send h' c)" using op' calculation by blast
    ultimately show ?thesis by (simp add: Run_unregister_present)
  qed
  have "\<forall>c \<in> set (clients h).
              (length (ch_buf (client_send h c)) < ch_cap (client_send h c) \<longrightarrow>
                 client_send h' c = (client_send h c)\<lparr>ch_buf := ch_buf (client_send h c) @ [m]\<rparr>) \<and>
              (\<not> length (ch_buf (client_send h c)) < ch_cap (client_send h c) \<longrightarrow>
                 client_send h' c = client_send h c \<and> c \<in> set (unregistering h') \<and>
                 (\<exists>h''. Run_unregister c h' = Inr h'' \<and> c \<notin> set (clients h'') \<and>
                         ch_closed (client_send h'' c)))"
  proof
    fix c assume c: "c \<in> set (clients h)"
    have 1: "length (ch_buf (client_send h c)) < ch_cap (client_send h c) \<longrightarrow>
                 client_send h' c = (client_send h c)\<lparr>ch_buf := ch_buf (client_send h c) @ [m]\<rparr>"
      using c by (simp add: h')
    have 2: "\<not> length (ch_buf (client_send h c)) < ch_cap (client_send h c) \<longrightarrow>
                 client_send h' c = client_send h c \<and> c \<in> set (unregistering h')"
      using c by (simp add: h')
    show "(length (ch_buf (client_send h c)) < ch_cap (client_send h c) \<longrightarrow>
                 client_send h' c = (client_send h c)\<lparr>ch_buf := ch_buf (client_send h c) @ [m]\<rparr>) \<and>
              (\<not> length (ch_buf (client_send h c)) < ch_cap (client_send h c) \<longrightarrow>
                 client_send h' c = client_send h c \<and> c \<in> set (unregistering h') \<and>
                 (\<exists>h''. Run_unregister c h' = Inr h'' \<and> c \<notin> set (clients h'') \<and>
                         ch_closed (client_send h'' c)))"
      using 1 2 slow[OF c] by blast
  qed
  then show ?thesis using r re cl by blast
qed


lemma filled_hub_0:
  "Run_register 1 (HandleWebSocket (Run_register 0 (HandleWebSocket NewHub))) = filled_hub 0"
  by (auto simp: Run_register_def HandleWebSocket_def NewHub_def filled_hub_def make_chan_def fun_eq_iff)

lemma filled_hub_Suc:
  "k < 256 \<Longrightarrow> Run_broadcast ''tick'' (filled_hub k) = Inr (filled_hub (Suc k))"
  by (auto simp: Run_broadcast_def filled_hub_def try_send_def fun_eq_iff replicate_append_same)

lemma reachable_filled_hub: "k \<le> 256 \<Longrightarrow> reachable (filled_hub k)"
proof (induction k)
  case 0
  have 1: "reachable (HandleWebSocket NewHub)"
    by (intro reachable.connect reachable.start)
  have 2: "reachable (Run_register 0 (HandleWebSocket NewHub))"
    using 1 by (rule reachable.register) (simp add: HandleWebSocket_def NewHub_def)
  have 3: "reachable (HandleWebSocket (Run_register 0 (HandleWebSocket NewHub)))"
    using 2 by (rule reachable.connect)
  have "reachable (Run_register 1 (HandleWebSocket (Run_register 0 (HandleWebSocket NewHub))))"
    using 3 by (rule reachable.register) (simp add: HandleWebSocket_def NewHub_def Run_register_def)
  then show ?case by (simp only: filled_hub_0)
next
  case (Suc k)
  then have "reachable (filled_hub k)" and "k < 256" by simp_all
  then show ?case using filled_hub_Suc reachable.broadcast by blast
qed

lemma reachable_slow_hub: "reachable slow_hub"
  unfolding slow_hub_def
proof (rule reachable.pump_receive)
  show "reachable (filled_hub 256)" by (rule reachable_filled_hub) simp
  show "1 < next_client (filled_hub 256)" by (simp add: filled_hub_def)
qed

lemma slow_hub_simps:
  "clients slow_hub = [0, 1]" "unregistering slow_hub = []"
  "client_send slow_hub 0 = \<lparr>ch_buf = replicate 256 ''tick'', ch_cap = 256, ch_closed = False\<rparr>"
  "client_send slow_hub (Suc 0) = \<lparr>ch_buf = replicate 255 ''tick'', ch_cap = 256, ch_closed = False\<rparr>"
  by (simp_all add: slow_hub_def receive_send_def filled_hub_def)

theorem broadcast_sheds_slow_clients_witness:
  "reachable slow_hub \<and> clients slow_hub = [0, 1] \<and>
   \<not> length (ch_buf (client_send slow_hub 0)) < ch_cap (client_send slow_hub 0) \<and>
   length (ch_buf (client_send slow_hub 1)) < ch_cap (client_send slow_hub 1) \<and>
   (\<exists>h'. Run_broadcast ''late'' slow_hub = Inr h' \<and> clients h' = [0, 1] \<and>
          client_send h' 0 = client_send slow_hub 0 \<and> 0 \<in> set (unregistering h') \<and>
          ch_buf (client_send h' 1) = replicate 255 ''tick'' @ [''late''])"
proof -
  obtain h' where r: "Run_broadcast ''late'' slow_hub = Inr h'" "clients h' = clients slow_hub"
    and c: "\<forall>c \<in> set (clients slow_hub).
              (length (ch_buf (client_send slow_hub c)) < ch_cap (client_send slow_hub c) \<longrightarrow>
                 client_send h' c = (client_send slow_hub c)\<lparr>ch_buf := ch_buf (client_send slow_hub c) @ [''late'']\<rparr>) \<and>
              (\<not> length (ch_buf (client_send slow_hub c)) < ch_cap (client_send slow_hub c) \<longrightarrow>
                 client_send h' c = client_send slow_hub c \<and> c \<in> set (unregistering h') \<and>
                 (\<exists>h''. Run_unregister c h' = Inr h'' \<and> c \<notin> set (clients h'') \<and>
                         ch_closed (client_send h'' c)))"
    using broadcast_sheds_slow_clients [OF reachable_slow_hub, of "''late''"] by blast
  have 0: "client_send h' 0 = client_send slow_hub 0 \<and> 0 \<in> set (unregistering h')"
    using c by (simp add: slow_hub_simps)
  have 1: "ch_buf (client_send h' 1) = replicate 255 ''tick'' @ [''late'']"
    using c by (simp add: slow_hub_simps)
  show ?thesis using reachable_slow_hub r 0 1 by (simp add: slow_hub_simps)
qed

theorem hub_client_set_witness:
  "reachable (filled_hub 0) \<and> 0 \<in> set (clients (filled_hub 0)) \<and>
   \<not> ch_closed (client_send (filled_hub 0) 0) \<and>
   Run_unregister 0 (filled_hub 0) =
     Inr ((filled_hub 0)\<lparr>unregistering := [], clients := [1],
            client_send := (client_send (filled_hub 0))(0 := \<lparr>ch_buf = [], ch_cap = 256, ch_closed = True\<rparr>)\<rparr>) \<and>
   5 \<notin> set (clients (filled_hub 0)) \<and>
   Run_unregister 5 (filled_hub 0) = Inr (filled_hub 0)"
proof -
  have re: "reachable (filled_hub 0)" by (simp add: reachable_filled_hub)
  have m: "0 \<in> set (clients (filled_hub 0))" "5 \<notin> set (clients (filled_hub 0))"
    by (simp_all add: filled_hub_def)
  show ?thesis
    using hub_client_set [OF re] re m by (simp add: filled_hub_def)
qed

end
